theory Spec2Isabelle
  imports Main "HOL-Library.Word"
begin

section \<open>Data model of storageUnit/storageunit.go\<close>

text \<open>
  A Go byte slice is a list of 8-bit words. A Go \<^verbatim>\<open>interface{}\<close> value, which is what
  the cacher hands back and what \<^verbatim>\<open>Unit.Get\<close> stores in its variable \<^verbatim>\<open>v\<close>, is either the
  nil interface, a byte slice, or a dynamic value of some other type (tagged by a
  description). A nil byte slice held in an interface is the empty \<open>AnyBytes\<close>.
\<close>

type_synonym bytes = "8 word list"

datatype any = AnyNil | AnyBytes bytes | AnyOther string

text \<open>
  The error values of the package and of \<^verbatim>\<open>common\<close>. \<open>Errorf_w e provided minimum\<close> is
  \<^verbatim>\<open>fmt.Errorf("%w, provided %d, minimum %d", e, provided, minimum)\<close>; \<open>Errorf_key key\<close> is
  \<^verbatim>\<open>fmt.Errorf("key: %s is not a byte slice", base64(key))\<close> (base64 is injective, so the
  message determines the key); \<open>ForeignError n\<close> is any error value produced by a
  persister or a persister factory.
\<close>

datatype error =
    ErrOldestEpochNotAvailable
  | ErrNilPersister
  | ErrNilCacher
  | ErrCacheSizeIsLowerThanBatchSize
  | ErrLRUCacheWithProvidedSize
  | ErrLRUCacheInvalidSize
  | ErrNotSupportedCacheType
  | ErrNotSupportedHashType
  | ErrNilPersisterFactory
  | Errorf_w error "64 word" "64 word"
  | Errorf_key bytes
  | ForeignError nat

text \<open>A Go call either returns or panics.\<close>

datatype 'a outcome = Returns 'a | Panics

type_synonym CacheType = string

definition LRUCache :: CacheType where
  "LRUCache = ''LRU''"

definition SizeLRUCache :: CacheType where
  "SizeLRUCache = ''SizeLRU''"

definition FIFOShardedCache :: CacheType where
  "FIFOShardedCache = ''FIFOSharded''"

definition minimumSizeForLRUCache :: "64 word" where
  "minimumSizeForLRUCache = 1024"

definition MaxRetriesToCreateDB :: int where
  "MaxRetriesToCreateDB = 10"

text \<open>Durations are nanoseconds, as in Go's \<^verbatim>\<open>time\<close> package.\<close>

definition Second :: nat where
  "Second = 1000000000"

definition SleepTimeBetweenCreateDBRetries :: nat where
  "SleepTimeBetweenCreateDBRetries = 5 * Second"

text \<open>
  Go's \<^verbatim>\<open>int\<close> is taken to be 64 bits wide (read with \<open>sint\<close>); \<^verbatim>\<open>uint32\<close> and \<^verbatim>\<open>uint64\<close> are
  read with \<open>uint\<close>.
\<close>

record CacheConfig =
  Name :: string
  Type :: CacheType
  SizeInBytes :: "64 word"
  SizeInBytesPerSender :: "32 word"
  Capacity :: "32 word"
  SizePerSender :: "32 word"
  Shards :: "32 word"

record DBConfig =
  FilePath :: string
  DBConfigType :: string
  BatchDelaySeconds :: "64 word"
  MaxBatchSize :: "64 word"
  MaxOpenFiles :: "64 word"

record KeyValuePair =
  Key :: bytes
  Value :: bytes

subsection \<open>The interfaces the unit is built on\<close>

text \<open>
  \<^verbatim>\<open>types.Cacher\<close> and \<^verbatim>\<open>types.Persister\<close> are interfaces whose implementations live in other
  packages. An implementation is a table of methods over its own state type; every
  method takes the state and hands back the new one, since a cache lookup may reorder
  the entries and a persister may batch. The result of a method is the Go result
  tuple: \<open>(value, ok)\<close> for the cacher's lookup, \<open>(value, err)\<close> for the persister's, with
  \<open>None\<close> for a nil error.
\<close>

record 'c Cacher =
  cacherClear :: "'c \<Rightarrow> 'c"
  cacherPut :: "'c \<Rightarrow> bytes \<Rightarrow> any \<Rightarrow> int \<Rightarrow> 'c"
  cacherGet :: "'c \<Rightarrow> bytes \<Rightarrow> (any \<times> bool) \<times> 'c"
  cacherHas :: "'c \<Rightarrow> bytes \<Rightarrow> bool \<times> 'c"
  cacherRemove :: "'c \<Rightarrow> bytes \<Rightarrow> 'c"

record 'p Persister =
  persisterPut :: "'p \<Rightarrow> bytes \<Rightarrow> bytes \<Rightarrow> error option \<times> 'p"
  persisterGet :: "'p \<Rightarrow> bytes \<Rightarrow> (any \<times> error option) \<times> 'p"
  persisterHas :: "'p \<Rightarrow> bytes \<Rightarrow> error option \<times> 'p"
  persisterClose :: "'p \<Rightarrow> error option \<times> 'p"
  persisterRemove :: "'p \<Rightarrow> bytes \<Rightarrow> error option \<times> 'p"
  persisterDestroy :: "'p \<Rightarrow> error option \<times> 'p"

text \<open>
  \<^verbatim>\<open>PersisterFactoryHandler\<close>: \<^verbatim>\<open>Create(path) (types.Persister, error)\<close> and
  \<^verbatim>\<open>IsInterfaceNil() bool\<close>. \<open>Create\<close> returns the Go pair as it is: a persister that may
  be nil and an error that may be nil.
\<close>

record ('f, 'p) PersisterFactoryHandler =
  factoryCreate :: "'f \<Rightarrow> string \<Rightarrow> ('p option \<times> error option) \<times> 'f"
  factoryIsInterfaceNil :: "'f \<Rightarrow> bool"

text \<open>
  The constructors of the cache packages, called by \<^verbatim>\<open>NewCache\<close>:
  \<^verbatim>\<open>lrucache.NewCache(int)\<close>, \<^verbatim>\<open>lrucache.NewCacheWithSizeInBytes(int, int64)\<close> and
  \<^verbatim>\<open>fifocache.NewShardedCache(int, int)\<close>, each returning \<open>(cacher, err)\<close>.
\<close>

record 'c CacheBuilders =
  lrucacheNewCache :: "64 word \<Rightarrow> 'c option \<times> error option"
  lrucacheNewCacheWithSizeInBytes :: "64 word \<Rightarrow> 64 word \<Rightarrow> 'c option \<times> error option"
  fifocacheNewShardedCache :: "64 word \<Rightarrow> 64 word \<Rightarrow> 'c option \<times> error option"

text \<open>
  What construction does to the outside: the calls it makes to the cache packages, to
  the persister factory and to \<^verbatim>\<open>time.Sleep\<close>, in order, and the counter
  \<^verbatim>\<open>cumulatedSizeInBytes\<close> of the monitoring package.
\<close>

datatype call =
    LruNewCache "64 word"
  | LruNewCacheWithSizeInBytes "64 word" "64 word"
  | FifoNewShardedCache "64 word" "64 word"
  | FactoryCreate string
  | TimeSleep nat

record world =
  calls :: "call list"
  cumulatedSizeInBytes :: "64 word"

definition called :: "call \<Rightarrow> world \<Rightarrow> world" where
  "called c w = w\<lparr>calls := calls w @ [c]\<rparr>"

fun isCreate :: "call \<Rightarrow> bool" where
  "isCreate (FactoryCreate path) = True"
| "isCreate c = False"

fun isSleep :: "call \<Rightarrow> bool" where
  "isSleep (TimeSleep d) = True"
| "isSleep c = False"

fun isBuild :: "call \<Rightarrow> bool" where
  "isBuild (LruNewCache n) = True"
| "isBuild (LruNewCacheWithSizeInBytes n s) = True"
| "isBuild (FifoNewShardedCache n s) = True"
| "isBuild c = False"

section \<open>The storage unit\<close>

text \<open>
  \<^verbatim>\<open>Unit\<close> holds the persister and the cacher; the methods that take its lock run as one
  step each.
\<close>

record ('c, 'p) Unit =
  cacher :: 'c
  persister :: 'p

text \<open>
  \<^verbatim>\<open>Put\<close>: the cacher's \<^verbatim>\<open>Put\<close> with \<^verbatim>\<open>len(data)\<close>, then the persister's; on a persister error
  the key is removed from the cacher and the error is returned.
\<close>

definition Put ::
  "'c Cacher \<Rightarrow> 'p Persister \<Rightarrow> ('c, 'p) Unit \<Rightarrow> bytes \<Rightarrow> bytes \<Rightarrow> error option \<times> ('c, 'p) Unit"
where
  "Put C P u key data =
     (let c1 = cacherPut C (cacher u) key (AnyBytes data) (int (length data)) in
      case persisterPut P (persister u) key data of (err, p1) \<Rightarrow>
        if err \<noteq> None then (err, \<lparr>cacher = cacherRemove C c1 key, persister = p1\<rparr>)
        else (err, \<lparr>cacher = c1, persister = p1\<rparr>))"

definition PutInEpoch ::
  "'c Cacher \<Rightarrow> 'p Persister \<Rightarrow> ('c, 'p) Unit \<Rightarrow> bytes \<Rightarrow> bytes \<Rightarrow> 32 word
     \<Rightarrow> error option \<times> ('c, 'p) Unit"
where
  "PutInEpoch C P u key data epoch = Put C P u key data"

definition GetOldestEpoch :: "('c, 'p) Unit \<Rightarrow> 32 word \<times> error option" where
  "GetOldestEpoch u = (0, Some ErrOldestEpochNotAvailable)"

definition Close ::
  "'c Cacher \<Rightarrow> 'p Persister \<Rightarrow> ('c, 'p) Unit \<Rightarrow> error option \<times> ('c, 'p) Unit"
where
  "Close C P u =
     (let c1 = cacherClear C (cacher u) in
      case persisterClose P (persister u) of (err, p1) \<Rightarrow>
        if err \<noteq> None then (err, \<lparr>cacher = c1, persister = p1\<rparr>)
        else (None, \<lparr>cacher = c1, persister = p1\<rparr>))"

text \<open>
  The two forms of the type assertion on \<^verbatim>\<open>v\<close>: \<^verbatim>\<open>buff, okAssertion := v.([]byte)\<close> gives
  \<open>Some buff\<close> or \<open>None\<close>; the plain \<^verbatim>\<open>v.([]byte)\<close> of the last line of \<^verbatim>\<open>Get\<close> panics where
  the other form gives \<open>None\<close>.
\<close>

fun assertBytes :: "any \<Rightarrow> bytes option" where
  "assertBytes (AnyBytes b) = Some b"
| "assertBytes v = None"

definition returnBytes :: "any \<Rightarrow> 's \<Rightarrow> (error + bytes) outcome \<times> 's" where
  "returnBytes v s =
     (case assertBytes v of
        None \<Rightarrow> (Panics, s)
      | Some b \<Rightarrow> (Returns (Inr b), s))"

text \<open>
  \<^verbatim>\<open>Get\<close> returns \<open>(data, err)\<close> with exactly one of the two nil: \<open>Inl e\<close> is \<open>(nil, e)\<close> and
  \<open>Inr b\<close> is \<open>(b, nil)\<close>.
\<close>

definition Get ::
  "'c Cacher \<Rightarrow> 'p Persister \<Rightarrow> ('c, 'p) Unit \<Rightarrow> bytes
     \<Rightarrow> (error + bytes) outcome \<times> ('c, 'p) Unit"
where
  "Get C P u key =
     (case cacherGet C (cacher u) key of ((v, ok), c1) \<Rightarrow>
        if \<not> ok then
          (case persisterGet P (persister u) key of ((v1, err), p1) \<Rightarrow>
             (case err of
                Some e \<Rightarrow> (Returns (Inl e), \<lparr>cacher = c1, persister = p1\<rparr>)
              | None \<Rightarrow>
                  (case assertBytes v1 of
                     None \<Rightarrow>
                       (Returns (Inl (Errorf_key key)), \<lparr>cacher = c1, persister = p1\<rparr>)
                   | Some buff \<Rightarrow>
                       returnBytes v1
                         \<lparr>cacher = cacherPut C c1 key v1 (int (length buff)),
                          persister = p1\<rparr>)))
        else returnBytes v \<lparr>cacher = c1, persister = persister u\<rparr>)"

definition GetFromEpoch ::
  "'c Cacher \<Rightarrow> 'p Persister \<Rightarrow> ('c, 'p) Unit \<Rightarrow> bytes \<Rightarrow> 32 word
     \<Rightarrow> (error + bytes) outcome \<times> ('c, 'p) Unit"
where
  "GetFromEpoch C P u key epoch = Get C P u key"

text \<open>
  \<^verbatim>\<open>GetBulkFromEpoch\<close>: the loop over \<^verbatim>\<open>keys\<close>, with \<^verbatim>\<open>results\<close> as its accumulator. A key
  whose \<^verbatim>\<open>Get\<close> gives an error is logged and skipped; a panic of \<^verbatim>\<open>Get\<close> ends the call.
\<close>

fun GetBulkLoop ::
  "'c Cacher \<Rightarrow> 'p Persister \<Rightarrow> bytes list \<Rightarrow> KeyValuePair list \<Rightarrow> ('c, 'p) Unit
     \<Rightarrow> (KeyValuePair list \<times> error option) outcome \<times> ('c, 'p) Unit"
where
  "GetBulkLoop C P [] results u = (Returns (results, None), u)"
| "GetBulkLoop C P (key # keys) results u =
     (case Get C P u key of
        (Panics, u1) \<Rightarrow> (Panics, u1)
      | (Returns (Inl err), u1) \<Rightarrow> GetBulkLoop C P keys results u1
      | (Returns (Inr val), u1) \<Rightarrow>
          GetBulkLoop C P keys (results @ [\<lparr>Key = key, Value = val\<rparr>]) u1)"

definition GetBulkFromEpoch ::
  "'c Cacher \<Rightarrow> 'p Persister \<Rightarrow> ('c, 'p) Unit \<Rightarrow> bytes list \<Rightarrow> 32 word
     \<Rightarrow> (KeyValuePair list \<times> error option) outcome \<times> ('c, 'p) Unit"
where
  "GetBulkFromEpoch C P u keys epoch = GetBulkLoop C P keys [] u"

definition Has ::
  "'c Cacher \<Rightarrow> 'p Persister \<Rightarrow> ('c, 'p) Unit \<Rightarrow> bytes \<Rightarrow> error option \<times> ('c, 'p) Unit"
where
  "Has C P u key =
     (case cacherHas C (cacher u) key of (has, c1) \<Rightarrow>
        if has then (None, \<lparr>cacher = c1, persister = persister u\<rparr>)
        else (case persisterHas P (persister u) key of (err, p1) \<Rightarrow>
                (err, \<lparr>cacher = c1, persister = p1\<rparr>)))"

definition SearchFirst ::
  "'c Cacher \<Rightarrow> 'p Persister \<Rightarrow> ('c, 'p) Unit \<Rightarrow> bytes
     \<Rightarrow> (error + bytes) outcome \<times> ('c, 'p) Unit"
where
  "SearchFirst C P u key = Get C P u key"

definition Remove ::
  "'c Cacher \<Rightarrow> 'p Persister \<Rightarrow> ('c, 'p) Unit \<Rightarrow> bytes \<Rightarrow> error option \<times> ('c, 'p) Unit"
where
  "Remove C P u key =
     (let c1 = cacherRemove C (cacher u) key in
      case persisterRemove P (persister u) key of (err, p1) \<Rightarrow>
        (err, \<lparr>cacher = c1, persister = p1\<rparr>))"

definition RemoveFromCurrentEpoch ::
  "'c Cacher \<Rightarrow> 'p Persister \<Rightarrow> ('c, 'p) Unit \<Rightarrow> bytes \<Rightarrow> error option \<times> ('c, 'p) Unit"
where
  "RemoveFromCurrentEpoch C P u key = Remove C P u key"

definition ClearCache :: "'c Cacher \<Rightarrow> ('c, 'p) Unit \<Rightarrow> ('c, 'p) Unit" where
  "ClearCache C u = u\<lparr>cacher := cacherClear C (cacher u)\<rparr>"

definition DestroyUnit ::
  "'c Cacher \<Rightarrow> 'p Persister \<Rightarrow> ('c, 'p) Unit \<Rightarrow> error option \<times> ('c, 'p) Unit"
where
  "DestroyUnit C P u =
     (let c1 = cacherClear C (cacher u) in
      case persisterDestroy P (persister u) of (err, p1) \<Rightarrow>
        (err, \<lparr>cacher = c1, persister = p1\<rparr>))"

section \<open>Construction\<close>

text \<open>
  \<^verbatim>\<open>NewStorageUnit(c, p)\<close>: a nil persister, then a nil cacher, is refused. \<open>None\<close> is the
  nil interface value.
\<close>

definition NewStorageUnit :: "'c option \<Rightarrow> 'p option \<Rightarrow> error + ('c, 'p) Unit" where
  "NewStorageUnit c p =
     (case p of
        None \<Rightarrow> Inl ErrNilPersister
      | Some p' \<Rightarrow>
          (case c of
             None \<Rightarrow> Inl ErrNilCacher
           | Some c' \<Rightarrow> Inr \<lparr>cacher = c', persister = p'\<rparr>))"

text \<open>
  \<^verbatim>\<open>monitoring.MonitorNewCache\<close>: adds \<^verbatim>\<open>int64(sizeInBytes)\<close> to the 64-bit counter (the
  addition wraps) and writes a log line.
\<close>

definition MonitorNewCache :: "string \<Rightarrow> 64 word \<Rightarrow> world \<Rightarrow> world" where
  "MonitorNewCache tag sizeInBytes w =
     w\<lparr>cumulatedSizeInBytes := cumulatedSizeInBytes w + sizeInBytes\<rparr>"

text \<open>
  The last lines of \<^verbatim>\<open>NewCache\<close>: \<^verbatim>\<open>if err != nil { return nil, err }; return cacher, nil\<close>.
\<close>

definition cacherOrErr :: "'c option \<times> error option \<Rightarrow> error + 'c option" where
  "cacherOrErr r = (case snd r of Some e \<Rightarrow> Inl e | None \<Rightarrow> Inr (fst r))"

definition NewCache ::
  "'c CacheBuilders \<Rightarrow> CacheConfig \<Rightarrow> world \<Rightarrow> (error + 'c option) \<times> world"
where
  "NewCache B config w0 =
     (let w = MonitorNewCache (Name config) (SizeInBytes config) w0;
          cacheType = Type config;
          capacity = Capacity config;
          shards = Shards config;
          sizeInBytes = SizeInBytes config
      in
        if cacheType = LRUCache then
          (if sizeInBytes \<noteq> 0 then (Inl ErrLRUCacheWithProvidedSize, w)
           else (cacherOrErr (lrucacheNewCache B (ucast capacity)),
                 called (LruNewCache (ucast capacity)) w))
        else if cacheType = SizeLRUCache then
          (if sizeInBytes < minimumSizeForLRUCache then
             (Inl (Errorf_w ErrLRUCacheInvalidSize sizeInBytes minimumSizeForLRUCache), w)
           else (cacherOrErr (lrucacheNewCacheWithSizeInBytes B (ucast capacity) sizeInBytes),
                 called (LruNewCacheWithSizeInBytes (ucast capacity) sizeInBytes) w))
        else if cacheType = FIFOShardedCache then
          (case fifocacheNewShardedCache B (ucast capacity) (ucast shards) of
             (cacher', Some e) \<Rightarrow>
               (Inl e, called (FifoNewShardedCache (ucast capacity) (ucast shards)) w)
           | (cacher', None) \<Rightarrow>
               (cacherOrErr (cacher', None),
                called (FifoNewShardedCache (ucast capacity) (ucast shards)) w))
        else (Inl ErrNotSupportedCacheType, w))"

text \<open>
  \<^verbatim>\<open>check.IfNil\<close> on the persister factory: the nil interface, or a handler whose
  \<^verbatim>\<open>IsInterfaceNil\<close> says so.
\<close>

fun IfNil :: "('f, 'p) PersisterFactoryHandler \<Rightarrow> 'f option \<Rightarrow> bool" where
  "IfNil H None = True"
| "IfNil H (Some f) = factoryIsInterfaceNil H f"

text \<open>
  The loop of \<^verbatim>\<open>NewDB\<close>, \<^verbatim>\<open>for i := 0; i < MaxRetriesToCreateDB; i++\<close>, with the variables
  \<^verbatim>\<open>db\<close> and \<^verbatim>\<open>err\<close> it assigns, and the lines after it. A successful \<^verbatim>\<open>Create\<close> returns from
  inside the loop; a failed one is followed by \<^verbatim>\<open>time.Sleep\<close> and the next round.
\<close>

function NewDBLoop ::
  "('f, 'p) PersisterFactoryHandler \<Rightarrow> string \<Rightarrow> int \<Rightarrow> 'p option \<Rightarrow> error option
     \<Rightarrow> 'f \<Rightarrow> world \<Rightarrow> (error + 'p option) \<times> 'f \<times> world"
where
  "NewDBLoop H path i db err f w =
     (if i < MaxRetriesToCreateDB then
        (case factoryCreate H f path of ((db', err'), f') \<Rightarrow>
           (case err' of
              None \<Rightarrow> (Inr db', f', called (FactoryCreate path) w)
            | Some e \<Rightarrow>
                NewDBLoop H path (i + 1) db' err' f'
                  (called (TimeSleep SleepTimeBetweenCreateDBRetries)
                     (called (FactoryCreate path) w))))
      else
        (case err of
           Some e \<Rightarrow> (Inl e, f, w)
         | None \<Rightarrow> (Inr db, f, w)))"
  by pat_completeness auto
termination
  by (relation "measure (\<lambda>(H, path, i, db, err, f, w). nat (MaxRetriesToCreateDB - i))") auto

declare NewDBLoop.simps [simp del]

fun NewDB ::
  "('f, 'p) PersisterFactoryHandler \<Rightarrow> 'f option \<Rightarrow> string \<Rightarrow> world
     \<Rightarrow> (error + 'p option) \<times> 'f option \<times> world"
where
  "NewDB H None path w = (Inl ErrNilPersisterFactory, None, w)"
| "NewDB H (Some f) path w =
     (if factoryIsInterfaceNil H f then (Inl ErrNilPersisterFactory, Some f, w)
      else (case NewDBLoop H path 0 None None f w of
              (r, f', w') \<Rightarrow> (r, Some f', w')))"

text \<open>
  \<^verbatim>\<open>NewStorageUnitFromConf\<close>. The comparison is \<^verbatim>\<open>dbConf.MaxBatchSize > int(cacheConf.Capacity)\<close>
  on signed 64-bit integers, the capacity zero-extended from 32 bits.
\<close>

definition NewStorageUnitFromConf ::
  "'c CacheBuilders \<Rightarrow> ('f, 'p) PersisterFactoryHandler \<Rightarrow> CacheConfig \<Rightarrow> DBConfig
     \<Rightarrow> 'f option \<Rightarrow> world \<Rightarrow> (error + ('c, 'p) Unit) \<times> 'f option \<times> world"
where
  "NewStorageUnitFromConf B H cacheConf dbConf persisterFactory w =
     (if sint (MaxBatchSize dbConf) > sint (ucast (Capacity cacheConf) :: 64 word) then
        (Inl ErrCacheSizeIsLowerThanBatchSize, persisterFactory, w)
      else
        (case NewCache B cacheConf w of
           (Inl e, w1) \<Rightarrow> (Inl e, persisterFactory, w1)
         | (Inr cache, w1) \<Rightarrow>
             (case NewDB H persisterFactory (FilePath dbConf) w1 of
                (Inl e, pf, w2) \<Rightarrow> (Inl e, pf, w2)
              | (Inr db, pf, w2) \<Rightarrow> (NewStorageUnit cache db, pf, w2))))"

section \<open>Vocabulary of the properties\<close>


definition deletes :: "'c Cacher \<Rightarrow> 'c \<Rightarrow> bytes \<Rightarrow> bool" where
  "deletes C c key = (\<not> snd (fst (cacherGet C (cacherRemove C c key) key)))"

text \<open>
  Modelled from the spec: the cacher implementations are missing from the sources, and
  so is what they hand back. Section 3 of the specification says of the unit that its
  cache "is always either absent for a key or holds the exact bytes last durably written
  for it", and sections 3 and 5 that the Cache Engine instance is owned by its unit
  alone; the unit itself puts nothing but byte slices into its cacher (\<^verbatim>\<open>Put\<close>, and
  \<^verbatim>\<open>Get\<close> after its checked assertion). \<open>holdsBytes C I\<close> says so for a cacher \<open>C\<close>: \<open>I\<close> is a
  property of its states that every method keeps when nothing but byte slices is put,
  and a lookup in a state with \<open>I\<close> finds nothing but byte slices.
\<close>

definition holdsBytes :: "'c Cacher \<Rightarrow> ('c \<Rightarrow> bool) \<Rightarrow> bool" where
  "holdsBytes C I =
     ((\<forall>c. I c \<longrightarrow> I (cacherClear C c)) \<and>
      (\<forall>c key b n. I c \<longrightarrow> I (cacherPut C c key (AnyBytes b) n)) \<and>
      (\<forall>c key. I c \<longrightarrow> I (snd (cacherGet C c key))) \<and>
      (\<forall>c key. I c \<longrightarrow> snd (fst (cacherGet C c key)) \<longrightarrow>
                 assertBytes (fst (fst (cacherGet C c key))) \<noteq> None) \<and>
      (\<forall>c key. I c \<longrightarrow> I (snd (cacherHas C c key))) \<and>
      (\<forall>c key. I c \<longrightarrow> I (cacherRemove C c key)))"

text \<open>How many \<^verbatim>\<open>Create\<close> calls and how many sleeps a world has seen.\<close>

definition creates :: "world \<Rightarrow> nat" where
  "creates w = length (filter isCreate (calls w))"

definition sleeps :: "world \<Rightarrow> nat" where
  "sleeps w = length (filter isSleep (calls w))"

definition builds :: "world \<Rightarrow> nat" where
  "builds w = length (filter isBuild (calls w))"

text \<open>
  The behaviour of a persister factory on consecutive \<^verbatim>\<open>Create(path)\<close> calls from the state
  \<open>f\<close>: \<open>createState H path f n\<close> is its state after \<open>n\<close> calls, and
  \<open>createResult H path f n\<close> is what call number \<open>n + 1\<close> returns.
\<close>

fun createState :: "('f, 'p) PersisterFactoryHandler \<Rightarrow> string \<Rightarrow> 'f \<Rightarrow> nat \<Rightarrow> 'f" where
  "createState H path f 0 = f"
| "createState H path f (Suc n) = createState H path (snd (factoryCreate H f path)) n"

definition createResult ::
  "('f, 'p) PersisterFactoryHandler \<Rightarrow> string \<Rightarrow> 'f \<Rightarrow> nat \<Rightarrow> 'p option \<times> error option"
where
  "createResult H path f n = fst (factoryCreate H (createState H path f n) path)"

text \<open>\<open>failsFirst H path f n\<close>: each of the first \<open>n\<close> calls returns an error.\<close>

definition failsFirst ::
  "('f, 'p) PersisterFactoryHandler \<Rightarrow> string \<Rightarrow> 'f \<Rightarrow> nat \<Rightarrow> bool"
where
  "failsFirst H path f n = list_all (\<lambda>m. snd (createResult H path f m) \<noteq> None) [0..<n]"

text \<open>
  What \<open>n\<close> failed rounds of the loop of \<^verbatim>\<open>NewDB\<close> add to the log of calls: a \<^verbatim>\<open>Create\<close> and a
  sleep each.
\<close>

definition failedRounds :: "string \<Rightarrow> nat \<Rightarrow> call list" where
  "failedRounds path n =
     concat (replicate n [FactoryCreate path, TimeSleep SleepTimeBetweenCreateDBRetries])"

text \<open>
  The outcomes of calling \<^verbatim>\<open>Get\<close> for each key of a list in turn, each call on the unit as
  the call before left it, and the pair that a successful call contributes to the
  result of \<^verbatim>\<open>GetBulkFromEpoch\<close>.
\<close>

fun getsOf ::
  "'c Cacher \<Rightarrow> 'p Persister \<Rightarrow> ('c, 'p) Unit \<Rightarrow> bytes list \<Rightarrow> (error + bytes) outcome list"
where
  "getsOf C P u [] = []"
| "getsOf C P u (key # keys) = fst (Get C P u key) # getsOf C P (snd (Get C P u key)) keys"

fun unitAfterGets ::
  "'c Cacher \<Rightarrow> 'p Persister \<Rightarrow> ('c, 'p) Unit \<Rightarrow> bytes list \<Rightarrow> ('c, 'p) Unit"
where
  "unitAfterGets C P u [] = u"
| "unitAfterGets C P u (key # keys) = unitAfterGets C P (snd (Get C P u key)) keys"

fun succeeded :: "bytes \<times> (error + bytes) outcome \<Rightarrow> KeyValuePair option" where
  "succeeded (key, Returns (Inr val)) = Some \<lparr>Key = key, Value = val\<rparr>"
| "succeeded (key, r) = None"

section \<open>Test doubles\<close>

text \<open>
  Small implementations of the interfaces, for running the unit on concrete inputs: a
  cacher that keeps its entries in an association list, newest first; a persister over
  an association list that can be switched to refuse every write, and whose lookup of a
  missing key is an error; a persister factory that
  fails a given number of \<^verbatim>\<open>Create\<close> calls (the error carries the number of the call) and
  then hands out empty persisters; cache constructors that hand out the empty cacher.
\<close>

definition listCacher :: "(bytes \<times> any) list Cacher" where
  "listCacher =
     \<lparr>cacherClear = (\<lambda>c. []),
      cacherPut = (\<lambda>c key v n. (key, v) # filter (\<lambda>e. fst e \<noteq> key) c),
      cacherGet = (\<lambda>c key. case map_of c key of
                              None \<Rightarrow> ((AnyNil, False), c)
                            | Some v \<Rightarrow> ((v, True), c)),
      cacherHas = (\<lambda>c key. (map_of c key \<noteq> None, c)),
      cacherRemove = (\<lambda>c key. filter (\<lambda>e. fst e \<noteq> key) c)\<rparr>"

text \<open>The states of the list cacher in which every value is a byte slice.\<close>

definition bytesOnly :: "(bytes \<times> any) list \<Rightarrow> bool" where
  "bytesOnly c = list_all (\<lambda>e. assertBytes (snd e) \<noteq> None) c"

record listDB =
  entries :: "(bytes \<times> any) list"
  writeError :: "error option"

definition listPersister :: "listDB Persister" where
  "listPersister =
     \<lparr>persisterPut = (\<lambda>p key data. case writeError p of
                          Some e \<Rightarrow> (Some e, p)
                        | None \<Rightarrow> (None, p\<lparr>entries := (key, AnyBytes data)
                                               # filter (\<lambda>e. fst e \<noteq> key) (entries p)\<rparr>)),
      persisterGet = (\<lambda>p key. case map_of (entries p) key of
                          None \<Rightarrow> ((AnyNil, Some (ForeignError 0)), p)
                        | Some v \<Rightarrow> ((v, None), p)),
      persisterHas = (\<lambda>p key. case map_of (entries p) key of
                          None \<Rightarrow> (Some (ForeignError 0), p)
                        | Some v \<Rightarrow> (None, p)),
      persisterClose = (\<lambda>p. (None, p)),
      persisterRemove = (\<lambda>p key. case writeError p of
                          Some e \<Rightarrow> (Some e, p)
                        | None \<Rightarrow> (None, p\<lparr>entries := filter (\<lambda>e. fst e \<noteq> key) (entries p)\<rparr>)),
      persisterDestroy = (\<lambda>p. (None, p\<lparr>entries := []\<rparr>))\<rparr>"

definition emptyDB :: listDB where
  "emptyDB = \<lparr>entries = [], writeError = None\<rparr>"

definition flakyFactory :: "nat \<Rightarrow> (nat, listDB) PersisterFactoryHandler" where
  "flakyFactory k =
     \<lparr>factoryCreate = (\<lambda>n path. if n < k then ((None, Some (ForeignError (Suc n))), Suc n)
                                  else ((Some emptyDB, None), Suc n)),
      factoryIsInterfaceNil = (\<lambda>n. False)\<rparr>"

text \<open>A handler that is a nil pointer behind the interface: \<^verbatim>\<open>IsInterfaceNil\<close> is true.\<close>

definition nilPointerFactory :: "(unit, listDB) PersisterFactoryHandler" where
  "nilPointerFactory =
     \<lparr>factoryCreate = (\<lambda>f path. ((None, Some (ForeignError 0)), f)),
      factoryIsInterfaceNil = (\<lambda>f. True)\<rparr>"

definition listBuilders :: "(bytes \<times> any) list CacheBuilders" where
  "listBuilders =
     \<lparr>lrucacheNewCache = (\<lambda>capacity. (Some [], None)),
      lrucacheNewCacheWithSizeInBytes = (\<lambda>capacity size. (Some [], None)),
      fifocacheNewShardedCache = (\<lambda>capacity shards. (Some [], None))\<rparr>"

definition newWorld :: world where
  "newWorld = \<lparr>calls = [], cumulatedSizeInBytes = 0\<rparr>"

section \<open>Auxiliary facts\<close>

text \<open>Widening the 32-bit capacity to a 64-bit signed integer keeps its value.\<close>

lemma sint_ucast_cap: "sint (ucast (c :: 32 word) :: 64 word) = uint c"
proof -
  have u: "uint (ucast c :: 64 word) = uint c"
    by (simp add: uint_up_ucast is_up)
  have b: "uint c < 2 ^ 32"
    using uint_bounded [of c] by simp
  have nn: "- (2 ^ 63) \<le> uint c"
    by (rule order_trans [OF _ uint_ge_0]) simp
  have "signed_take_bit 63 (uint c) = uint c"
    using nn b by (intro signed_take_bit_int_eq_self) simp_all
  then show ?thesis
    by (simp add: sint_uint u)
qed

text \<open>The factory's behaviour on consecutive calls, unrolled by one call.\<close>

lemma createResult_Suc:
  "createResult H path f (Suc n) = createResult H path (snd (factoryCreate H f path)) n"
  by (simp add: createResult_def)

lemma failsFirst_Suc:
  "failsFirst H path f (Suc n) =
     (snd (createResult H path f 0) \<noteq> None \<and> failsFirst H path (snd (factoryCreate H f path)) n)"
proof -
  have u: "[0..<Suc n] = 0 # map Suc [0..<n]"
    by (simp add: upt_conv_Cons map_Suc_upt del: upt_Suc)
  have "list_all Q [0..<Suc n] = (Q 0 \<and> list_all (\<lambda>m. Q (Suc m)) [0..<n])" for Q :: "nat \<Rightarrow> bool"
    unfolding u by (simp add: list.pred_map comp_def)
  then show ?thesis
    unfolding failsFirst_def createResult_Suc [symmetric] .
qed

lemma failedRounds_Suc:
  "failedRounds path (Suc n) =
     FactoryCreate path # TimeSleep SleepTimeBetweenCreateDBRetries # failedRounds path n"
  by (simp add: failedRounds_def)

text \<open>
  The loop of \<^verbatim>\<open>NewDB\<close>, entered at round \<open>i\<close>: when the factory fails \<open>n\<close> more calls and
  then succeeds within the remaining rounds, the loop returns that persister, and the log
  grows by \<open>n\<close> failed rounds and the successful call.
\<close>

lemma NewDBLoop_success:
  assumes "i + int n < MaxRetriesToCreateDB"
    and "failsFirst H path f n"
    and "snd (createResult H path f n) = None"
  shows "NewDBLoop H path i db err f w =
           (Inr (fst (createResult H path f n)), createState H path f (Suc n),
            w\<lparr>calls := calls w @ failedRounds path n @ [FactoryCreate path]\<rparr>)"
  using assms
proof (induction n arbitrary: i db err f w)
  case 0
  then show ?case
    by (subst NewDBLoop.simps)
      (auto simp: createResult_def called_def failedRounds_def split: prod.splits option.splits)
next
  case (Suc n)
  obtain db' e f' where c: "factoryCreate H f path = ((db', Some e), f')"
    using Suc.prems(2) by (cases "factoryCreate H f path") (auto simp: failsFirst_Suc createResult_def)
  have ih: "NewDBLoop H path (i + 1) db' (Some e) f' w' =
           (Inr (fst (createResult H path f' n)), createState H path f' (Suc n),
            w'\<lparr>calls := calls w' @ failedRounds path n @ [FactoryCreate path]\<rparr>)" for w'
    using Suc.prems c by (intro Suc.IH) (auto simp: failsFirst_Suc createResult_Suc)
  have lt: "i < MaxRetriesToCreateDB"
    using Suc.prems(1) by simp
  show ?case
    by (subst NewDBLoop.simps) (simp add: lt c ih createResult_Suc failedRounds_Suc called_def)
qed

text \<open>
  When the factory fails every one of the \<open>n\<close> remaining rounds, the lines after the loop
  return the error of the last call, and the log grows by \<open>n\<close> failed rounds.
\<close>

lemma NewDBLoop_exhausted:
  assumes "i + int n = MaxRetriesToCreateDB"
    and "failsFirst H path f n"
  shows "NewDBLoop H path i db err f w =
           ((case (if n = 0 then err else snd (createResult H path f (n - 1))) of
               Some e \<Rightarrow> Inl e
             | None \<Rightarrow> Inr db),
            createState H path f n,
            w\<lparr>calls := calls w @ failedRounds path n\<rparr>)"
  using assms
proof (induction n arbitrary: i db err f w)
  case 0
  then show ?case
    by (subst NewDBLoop.simps) (auto simp: failedRounds_def split: option.splits)
next
  case (Suc n)
  obtain db' e f' where c: "factoryCreate H f path = ((db', Some e), f')"
    using Suc.prems(2) by (cases "factoryCreate H f path") (auto simp: failsFirst_Suc createResult_def)
  have ff: "failsFirst H path f' n"
    using Suc.prems(2) c by (simp add: failsFirst_Suc)
  have ih: "NewDBLoop H path (i + 1) db' (Some e) f' w' =
           ((case (if n = 0 then Some e else snd (createResult H path f' (n - 1))) of
               Some e \<Rightarrow> Inl e
             | None \<Rightarrow> Inr db'),
            createState H path f' n,
            w'\<lparr>calls := calls w' @ failedRounds path n\<rparr>)" for w'
    using Suc.prems(1) ff by (intro Suc.IH) auto
  have lt: "i < MaxRetriesToCreateDB"
    using Suc.prems(1) by simp
  have last: "(if n = 0 then Some e else snd (createResult H path f' (n - 1)))
                = snd (createResult H path f n)"
    using c by (cases n) (simp_all add: createResult_Suc, simp add: createResult_def)
  have "\<exists>e'. snd (createResult H path f n) = Some e'"
    using Suc.prems(2) by (simp add: failsFirst_def list_all_iff)
  then obtain e' where e': "snd (createResult H path f n) = Some e'" ..
  show ?case
    by (subst NewDBLoop.simps)
       (simp add: lt c ih last e' failedRounds_Suc called_def)
qed

text \<open>What a run of failed rounds adds to the counts of calls.\<close>

lemma creates_failedRounds: "length (filter isCreate (failedRounds path n)) = n"
  by (induction n) (simp_all add: failedRounds_Suc, simp add: failedRounds_def)

lemma sleeps_failedRounds: "length (filter isSleep (failedRounds path n)) = n"
  by (induction n) (simp_all add: failedRounds_Suc, simp add: failedRounds_def)

text \<open>A factory that does not fail all of its first \<open>k\<close> calls has a first successful one.\<close>

lemma first_success:
  assumes "\<not> failsFirst H path f k"
  shows "\<exists>n<k. failsFirst H path f n \<and> snd (createResult H path f n) = None"
  using assms
proof (induction k)
  case 0
  then show ?case by (simp add: failsFirst_def)
next
  case (Suc k)
  show ?case
  proof (cases "failsFirst H path f k")
    case True
    with Suc.prems have "snd (createResult H path f k) = None"
      by (simp add: failsFirst_def)
    with True show ?thesis by blast
  next
    case False
    from Suc.IH [OF False]
    obtain n where "n < k" "failsFirst H path f n" "snd (createResult H path f n) = None"
      by blast
    then show ?thesis using less_Suc_eq by blast
  qed
qed

text \<open>\<^verbatim>\<open>NewDB\<close> on a factory that is not nil, in the two ways its loop can end.\<close>

lemma NewDB_success:
  assumes "\<not> IfNil H (Some f)" and "n < 10"
    and "failsFirst H path f n" and "snd (createResult H path f n) = None"
  shows "NewDB H (Some f) path w =
           (Inr (fst (createResult H path f n)), Some (createState H path f (Suc n)),
            w\<lparr>calls := calls w @ failedRounds path n @ [FactoryCreate path]\<rparr>)"
proof -
  have "0 + int n < MaxRetriesToCreateDB"
    using assms(2) by (simp add: MaxRetriesToCreateDB_def)
  from NewDBLoop_success [OF this assms(3,4)] assms(1) show ?thesis
    by simp
qed

lemma NewDB_exhausted:
  assumes "\<not> IfNil H (Some f)" and "failsFirst H path f 10"
  shows "NewDB H (Some f) path w =
           ((case snd (createResult H path f 9) of Some e \<Rightarrow> Inl e | None \<Rightarrow> Inr None),
            Some (createState H path f 10),
            w\<lparr>calls := calls w @ failedRounds path 10\<rparr>)"
proof -
  have "0 + int 10 = MaxRetriesToCreateDB"
    by (simp add: MaxRetriesToCreateDB_def)
  from NewDBLoop_exhausted [OF this assms(2)] assms(1) show ?thesis
    by simp
qed

text \<open>
  The sleeps of \<^verbatim>\<open>NewDB\<close>, for any factory: one after each failed call, so \<open>n\<close> when call
  number \<open>n + 1\<close> is the first to succeed, and ten when the first ten calls fail.
\<close>

lemma NewDB_success_sleeps:
  assumes "\<not> IfNil H (Some f)" and "n < 10"
    and "failsFirst H path f n" and "snd (createResult H path f n) = None"
  shows "sleeps (snd (snd (NewDB H (Some f) path w))) = sleeps w + n"
  unfolding NewDB_success [OF assms]
  by (simp add: sleeps_def sleeps_failedRounds)

lemma NewDB_exhausted_sleeps:
  assumes "\<not> IfNil H (Some f)" and "failsFirst H path f 10"
  shows "sleeps (snd (snd (NewDB H (Some f) path w))) = sleeps w + 10"
  unfolding NewDB_exhausted [OF assms]
  by (simp add: sleeps_def sleeps_failedRounds)

text \<open>The flaky factory: its state counts the calls, and the first \<open>k\<close> calls fail.\<close>

lemma flaky_state: "createState (flakyFactory k) path f n = f + n"
  by (induction n arbitrary: f) (simp_all add: flakyFactory_def)

lemma flaky_result:
  "createResult (flakyFactory k) path 0 n =
     (if n < k then (None, Some (ForeignError (Suc n))) else (Some emptyDB, None))"
  by (simp add: createResult_def flaky_state) (simp add: flakyFactory_def)

lemma flaky_fails: "n \<le> k \<Longrightarrow> failsFirst (flakyFactory k) path 0 n"
  by (simp add: failsFirst_def list_all_iff flaky_result)

section \<open>Creating the persister: \<^verbatim>\<open>NewDB\<close>\<close>

text \<open>
  C4. \<^verbatim>\<open>NewDB\<close> on a factory that is not nil calls \<^verbatim>\<open>Create\<close> at most ten times. If call
  number \<open>n + 1\<close> (with \<open>n < 10\<close>) is the first that returns no error, \<^verbatim>\<open>NewDB\<close> returns the
  persister of that call, and its log of calls ends with that \<^verbatim>\<open>Create\<close>: \<open>n\<close> failed
  rounds, then the successful call, \<open>n + 1\<close> calls of \<^verbatim>\<open>Create\<close> in all and nothing after.
  If all of the first ten calls return an error, \<^verbatim>\<open>NewDB\<close> returns the error of the tenth
  call, after exactly ten calls of \<^verbatim>\<open>Create\<close>.
\<close>

theorem NewDB_retries:
  assumes "\<not> IfNil H (Some f)"
  shows "creates (snd (snd (NewDB H (Some f) path w))) \<le> creates w + 10 \<and>
         (\<forall>n<10. failsFirst H path f n \<and> snd (createResult H path f n) = None \<longrightarrow>
            NewDB H (Some f) path w =
              (Inr (fst (createResult H path f n)), Some (createState H path f (Suc n)),
               w\<lparr>calls := calls w @ failedRounds path n @ [FactoryCreate path]\<rparr>) \<and>
            creates (snd (snd (NewDB H (Some f) path w))) = creates w + Suc n) \<and>
         (failsFirst H path f 10 \<longrightarrow>
            (\<exists>e. snd (createResult H path f 9) = Some e \<and>
                 fst (NewDB H (Some f) path w) = Inl e) \<and>
            creates (snd (snd (NewDB H (Some f) path w))) = creates w + 10)"
proof (intro conjI allI impI)
  show "creates (snd (snd (NewDB H (Some f) path w))) \<le> creates w + 10"
  proof (cases "failsFirst H path f 10")
    case True
    from NewDB_exhausted [OF assms True] show ?thesis
      by (simp add: creates_def creates_failedRounds del: NewDB.simps)
  next
    case False
    from first_success [OF False]
    obtain n where n: "n < 10" "failsFirst H path f n" "snd (createResult H path f n) = None"
      by blast
    from NewDB_success [OF assms n] n(1) show ?thesis
      by (simp add: creates_def creates_failedRounds del: NewDB.simps)
  qed
next
  fix n :: nat
  assume n: "n < 10" and s: "failsFirst H path f n \<and> snd (createResult H path f n) = None"
  from s have s1: "failsFirst H path f n" and s2: "snd (createResult H path f n) = None"
    by simp_all
  show "NewDB H (Some f) path w =
              (Inr (fst (createResult H path f n)), Some (createState H path f (Suc n)),
               w\<lparr>calls := calls w @ failedRounds path n @ [FactoryCreate path]\<rparr>)"
    by (rule NewDB_success [OF assms n s1 s2])
  then show "creates (snd (snd (NewDB H (Some f) path w))) = creates w + Suc n"
    by (simp add: creates_def creates_failedRounds del: NewDB.simps)
next
  assume a: "failsFirst H path f 10"
  then have "snd (createResult H path f 9) \<noteq> None"
    by (simp add: failsFirst_def list_all_iff)
  then obtain e where e: "snd (createResult H path f 9) = Some e"
    by blast
  with NewDB_exhausted [OF assms a, of w]
  show "\<exists>e. snd (createResult H path f 9) = Some e \<and> fst (NewDB H (Some f) path w) = Inl e"
    by (simp del: NewDB.simps)
  from NewDB_exhausted [OF assms a, of w]
  show "creates (snd (snd (NewDB H (Some f) path w))) = creates w + 10"
    by (simp add: creates_def creates_failedRounds del: NewDB.simps)
qed

text \<open>
  The factory that fails nine calls and succeeds on the tenth, and the one that fails
  ten calls.
\<close>

theorem NewDB_retries_witness:
  "\<not> IfNil (flakyFactory 9) (Some 0) \<and>
   failsFirst (flakyFactory 9) ''db'' 0 9 \<and>
   snd (createResult (flakyFactory 9) ''db'' 0 9) = None \<and>
   fst (NewDB (flakyFactory 9) (Some 0) ''db'' newWorld) = Inr (Some emptyDB) \<and>
   creates (snd (snd (NewDB (flakyFactory 9) (Some 0) ''db'' newWorld))) = 10 \<and>
   \<not> IfNil (flakyFactory 10) (Some 0) \<and>
   failsFirst (flakyFactory 10) ''db'' 0 10 \<and>
   fst (NewDB (flakyFactory 10) (Some 0) ''db'' newWorld) = Inl (ForeignError 10) \<and>
   creates (snd (snd (NewDB (flakyFactory 10) (Some 0) ''db'' newWorld))) = 10"
proof -
  have n9: "\<not> IfNil (flakyFactory 9) (Some 0)" and n10: "\<not> IfNil (flakyFactory 10) (Some 0)"
    by (simp_all add: flakyFactory_def)
  have f9: "failsFirst (flakyFactory 9) ''db'' 0 9" and f10: "failsFirst (flakyFactory 10) ''db'' 0 10"
    by (simp_all add: flaky_fails)
  have s9: "snd (createResult (flakyFactory 9) ''db'' 0 9) = None"
    by (simp add: flaky_result)
  have c0: "creates newWorld = 0"
    by (simp add: creates_def newWorld_def)
  have l9: "(9::nat) < 10"
    by simp
  note t9 = NewDB_retries [OF n9, of "''db''" newWorld, THEN conjunct2, THEN conjunct1,
      rule_format, OF l9 conjI [OF f9 s9]]
  note t10 = NewDB_retries [OF n10, of "''db''" newWorld, THEN conjunct2, THEN conjunct2,
      rule_format, OF f10]
  have a1: "fst (NewDB (flakyFactory 9) (Some 0) ''db'' newWorld) = Inr (Some emptyDB)"
    using t9 [THEN conjunct1] by (simp add: flaky_result del: NewDB.simps)
  have a2: "creates (snd (snd (NewDB (flakyFactory 9) (Some 0) ''db'' newWorld))) = 10"
    using t9 [THEN conjunct2] by (simp add: c0 del: NewDB.simps)
  have b1: "fst (NewDB (flakyFactory 10) (Some 0) ''db'' newWorld) = Inl (ForeignError 10)"
    using t10 [THEN conjunct1] by (simp add: flaky_result del: NewDB.simps)
  have b2: "creates (snd (snd (NewDB (flakyFactory 10) (Some 0) ''db'' newWorld))) = 10"
    using t10 [THEN conjunct2] by (simp add: c0 del: NewDB.simps)
  from n9 n10 f9 f10 s9 a1 a2 b1 b2 show ?thesis by (simp del: NewDB.simps)
qed

text \<open>
  C5. The claim is that \<^verbatim>\<open>NewDB\<close> sleeps at most nine times and never after the last failed
  attempt. The loop sleeps after every failed \<^verbatim>\<open>Create\<close>, the tenth included: on the factory
  that fails ten calls \<^verbatim>\<open>NewDB\<close> returns the error of the tenth call after ten calls of
  \<^verbatim>\<open>Create\<close> and ten sleeps, and the last thing it does is sleep.
\<close>

theorem NewDB_sleeps_after_last_failure:
  "fst (NewDB (flakyFactory 10) (Some 0) ''db'' newWorld) = Inl (ForeignError 10) \<and>
   calls (snd (snd (NewDB (flakyFactory 10) (Some 0) ''db'' newWorld))) = failedRounds ''db'' 10 \<and>
   creates (snd (snd (NewDB (flakyFactory 10) (Some 0) ''db'' newWorld))) = 10 \<and>
   sleeps (snd (snd (NewDB (flakyFactory 10) (Some 0) ''db'' newWorld))) = 10 \<and>
   last (calls (snd (snd (NewDB (flakyFactory 10) (Some 0) ''db'' newWorld))))
     = TimeSleep SleepTimeBetweenCreateDBRetries"
proof -
  have n: "\<not> IfNil (flakyFactory 10) (Some 0)"
    by (simp add: flakyFactory_def)
  have f: "failsFirst (flakyFactory 10) ''db'' 0 10"
    by (simp add: flaky_fails)
  have l: "last (failedRounds path (Suc n)) = TimeSleep SleepTimeBetweenCreateDBRetries" for path n
    by (induction n) (simp_all add: failedRounds_def)
  have l10: "last (failedRounds ''db'' 10) = TimeSleep SleepTimeBetweenCreateDBRetries"
    using l [of "''db''" 9] by simp
  note e = NewDB_exhausted [OF n f, of newWorld]
  show ?thesis
    unfolding e
    by (simp add: flaky_result newWorld_def creates_def sleeps_def
        creates_failedRounds sleeps_failedRounds l10)
qed

text \<open>
  C6. \<^verbatim>\<open>NewDB\<close> on a nil persister factory (the nil interface, or a handler whose
  \<^verbatim>\<open>IsInterfaceNil\<close> is true) returns \<^verbatim>\<open>ErrNilPersisterFactory\<close> and leaves the factory and the
  world as they were: no \<^verbatim>\<open>Create\<close> call and no sleep.
\<close>

theorem NewDB_nil_factory:
  assumes "IfNil H persisterFactory"
  shows "NewDB H persisterFactory path w = (Inl ErrNilPersisterFactory, persisterFactory, w) \<and>
         creates (snd (snd (NewDB H persisterFactory path w))) = creates w \<and>
         sleeps (snd (snd (NewDB H persisterFactory path w))) = sleeps w"
  using assms by (cases persisterFactory) simp_all

text \<open>The nil interface, and a nil pointer behind the interface.\<close>

theorem NewDB_nil_factory_witness:
  "IfNil (flakyFactory 0) None \<and>
   NewDB (flakyFactory 0) None ''db'' newWorld = (Inl ErrNilPersisterFactory, None, newWorld) \<and>
   IfNil nilPointerFactory (Some ()) \<and>
   NewDB nilPointerFactory (Some ()) ''db'' newWorld
     = (Inl ErrNilPersisterFactory, Some (), newWorld)"
proof -
  have a: "IfNil (flakyFactory 0) None"
    by simp
  have b: "IfNil nilPointerFactory (Some ())"
    by (simp add: nilPointerFactory_def)
  from NewDB_nil_factory [OF a, of "''db''" newWorld] NewDB_nil_factory [OF b, of "''db''" newWorld]
    a b
  show ?thesis
    by (simp del: NewDB.simps IfNil.simps)
qed

section \<open>Construction from a configuration\<close>

text \<open>
  C3. When \<^verbatim>\<open>DBConf.MaxBatchSize\<close> exceeds \<^verbatim>\<open>CacheConf.Capacity\<close> (as integers),
  \<^verbatim>\<open>NewStorageUnitFromConf\<close> returns \<^verbatim>\<open>ErrCacheSizeIsLowerThanBatchSize\<close> and leaves the factory and
  the world as they were: nothing was added to the monitoring counter, no cache
  constructor was called and \<^verbatim>\<open>Create\<close> was not called.
\<close>

theorem NewStorageUnitFromConf_batch_size:
  assumes "sint (MaxBatchSize dbConf) > uint (Capacity cacheConf)"
  shows "NewStorageUnitFromConf B H cacheConf dbConf persisterFactory w =
           (Inl ErrCacheSizeIsLowerThanBatchSize, persisterFactory, w)"
  using assms by (simp add: NewStorageUnitFromConf_def sint_ucast_cap)

text \<open>A batch size of 100 with a capacity of 50.\<close>

theorem NewStorageUnitFromConf_batch_size_witness:
  "sint (100 :: 64 word) > uint (50 :: 32 word) \<and>
   NewStorageUnitFromConf listBuilders (flakyFactory 0)
      \<lparr>Name = ''cache'', Type = LRUCache, SizeInBytes = 0, SizeInBytesPerSender = 0,
       Capacity = 50, SizePerSender = 0, Shards = 1\<rparr>
      \<lparr>FilePath = ''db'', DBConfigType = ''MemoryDB'', BatchDelaySeconds = 1,
       MaxBatchSize = 100, MaxOpenFiles = 10\<rparr>
      (Some 0) newWorld
    = (Inl ErrCacheSizeIsLowerThanBatchSize, Some 0, newWorld)"
proof -
  have h: "sint (100 :: 64 word) > uint (50 :: 32 word)"
    by simp
  have "sint (MaxBatchSize \<lparr>FilePath = ''db'', DBConfigType = ''MemoryDB'', BatchDelaySeconds = 1,
       MaxBatchSize = 100, MaxOpenFiles = 10\<rparr>)
     > uint (Capacity \<lparr>Name = ''cache'', Type = LRUCache, SizeInBytes = 0, SizeInBytesPerSender = 0,
       Capacity = 50, SizePerSender = 0, Shards = 1\<rparr>)"
    by simp
  from NewStorageUnitFromConf_batch_size [OF this, of listBuilders "flakyFactory 0" "Some 0" newWorld] h
  show ?thesis
    by simp
qed

text \<open>
  C7. \<^verbatim>\<open>NewCache\<close> refuses a misconfiguration after the monitoring hook and before any cache
  constructor is called: kind \<^verbatim>\<open>LRU\<close> with a size in bytes other than zero gives
  \<^verbatim>\<open>ErrLRUCacheWithProvidedSize\<close>; kind \<^verbatim>\<open>SizeLRU\<close> with a size in bytes below 1024 (zero
  included) gives \<^verbatim>\<open>ErrLRUCacheInvalidSize\<close> wrapped with the size provided and the
  minimum; a kind that is none of the three gives \<^verbatim>\<open>ErrNotSupportedCacheType\<close>.
\<close>

theorem NewCache_misconfiguration:
  "(Type config = LRUCache \<and> SizeInBytes config \<noteq> 0 \<longrightarrow>
      NewCache B config w =
        (Inl ErrLRUCacheWithProvidedSize, MonitorNewCache (Name config) (SizeInBytes config) w)) \<and>
   (Type config = SizeLRUCache \<and> uint (SizeInBytes config) < 1024 \<longrightarrow>
      NewCache B config w =
        (Inl (Errorf_w ErrLRUCacheInvalidSize (SizeInBytes config) minimumSizeForLRUCache),
         MonitorNewCache (Name config) (SizeInBytes config) w)) \<and>
   (Type config \<noteq> LRUCache \<and> Type config \<noteq> SizeLRUCache \<and> Type config \<noteq> FIFOShardedCache \<longrightarrow>
      NewCache B config w =
        (Inl ErrNotSupportedCacheType, MonitorNewCache (Name config) (SizeInBytes config) w)) \<and>
   builds (MonitorNewCache (Name config) (SizeInBytes config) w) = builds w"
proof (intro conjI impI)
  assume "Type config = LRUCache \<and> SizeInBytes config \<noteq> 0"
  then show "NewCache B config w =
        (Inl ErrLRUCacheWithProvidedSize, MonitorNewCache (Name config) (SizeInBytes config) w)"
    by (simp add: NewCache_def Let_def)
next
  assume a: "Type config = SizeLRUCache \<and> uint (SizeInBytes config) < 1024"
  then have "SizeInBytes config < minimumSizeForLRUCache"
    by (simp add: minimumSizeForLRUCache_def word_less_def)
  with a show "NewCache B config w =
        (Inl (Errorf_w ErrLRUCacheInvalidSize (SizeInBytes config) minimumSizeForLRUCache),
         MonitorNewCache (Name config) (SizeInBytes config) w)"
    by (simp add: NewCache_def Let_def LRUCache_def SizeLRUCache_def)
next
  assume "Type config \<noteq> LRUCache \<and> Type config \<noteq> SizeLRUCache \<and> Type config \<noteq> FIFOShardedCache"
  then show "NewCache B config w =
        (Inl ErrNotSupportedCacheType, MonitorNewCache (Name config) (SizeInBytes config) w)"
    by (simp add: NewCache_def Let_def)
next
  show "builds (MonitorNewCache (Name config) (SizeInBytes config) w) = builds w"
    by (simp add: builds_def MonitorNewCache_def)
qed

text \<open>
  Kind \<^verbatim>\<open>LRU\<close> with one byte, kind \<^verbatim>\<open>SizeLRU\<close> with 1023 bytes and with none, and a kind
  that does not exist.
\<close>

theorem NewCache_misconfiguration_witness:
  "NewCache listBuilders
      \<lparr>Name = ''c'', Type = ''LRU'', SizeInBytes = 1, SizeInBytesPerSender = 0,
       Capacity = 10, SizePerSender = 0, Shards = 1\<rparr> newWorld
     = (Inl ErrLRUCacheWithProvidedSize, \<lparr>calls = [], cumulatedSizeInBytes = 1\<rparr>) \<and>
   NewCache listBuilders
      \<lparr>Name = ''c'', Type = ''SizeLRU'', SizeInBytes = 1023, SizeInBytesPerSender = 0,
       Capacity = 10, SizePerSender = 0, Shards = 1\<rparr> newWorld
     = (Inl (Errorf_w ErrLRUCacheInvalidSize 1023 1024),
        \<lparr>calls = [], cumulatedSizeInBytes = 1023\<rparr>) \<and>
   NewCache listBuilders
      \<lparr>Name = ''c'', Type = ''SizeLRU'', SizeInBytes = 0, SizeInBytesPerSender = 0,
       Capacity = 10, SizePerSender = 0, Shards = 1\<rparr> newWorld
     = (Inl (Errorf_w ErrLRUCacheInvalidSize 0 1024), \<lparr>calls = [], cumulatedSizeInBytes = 0\<rparr>) \<and>
   NewCache listBuilders
      \<lparr>Name = ''c'', Type = ''ARC'', SizeInBytes = 0, SizeInBytesPerSender = 0,
       Capacity = 10, SizePerSender = 0, Shards = 1\<rparr> newWorld
     = (Inl ErrNotSupportedCacheType, \<lparr>calls = [], cumulatedSizeInBytes = 0\<rparr>)"
proof -
  let ?lru = "\<lparr>Name = ''c'', Type = ''LRU'', SizeInBytes = 1, SizeInBytesPerSender = 0,
       Capacity = 10, SizePerSender = 0, Shards = 1\<rparr>"
  let ?small = "\<lparr>Name = ''c'', Type = ''SizeLRU'', SizeInBytes = 1023, SizeInBytesPerSender = 0,
       Capacity = 10, SizePerSender = 0, Shards = 1\<rparr>"
  let ?zero = "\<lparr>Name = ''c'', Type = ''SizeLRU'', SizeInBytes = 0, SizeInBytesPerSender = 0,
       Capacity = 10, SizePerSender = 0, Shards = 1\<rparr>"
  let ?arc = "\<lparr>Name = ''c'', Type = ''ARC'', SizeInBytes = 0, SizeInBytesPerSender = 0,
       Capacity = 10, SizePerSender = 0, Shards = 1\<rparr>"
  have h1: "Type ?lru = LRUCache \<and> SizeInBytes ?lru \<noteq> 0"
    by (simp add: LRUCache_def)
  have h2: "Type ?small = SizeLRUCache \<and> uint (SizeInBytes ?small) < 1024"
    by (simp add: SizeLRUCache_def)
  have h3: "Type ?zero = SizeLRUCache \<and> uint (SizeInBytes ?zero) < 1024"
    by (simp add: SizeLRUCache_def)
  have h4: "Type ?arc \<noteq> LRUCache \<and> Type ?arc \<noteq> SizeLRUCache \<and> Type ?arc \<noteq> FIFOShardedCache"
    by (simp add: LRUCache_def SizeLRUCache_def FIFOShardedCache_def)
  note t1 = NewCache_misconfiguration [of ?lru listBuilders newWorld, THEN conjunct1, rule_format, OF h1]
  note t2 = NewCache_misconfiguration [of ?small listBuilders newWorld, THEN conjunct2, THEN conjunct1,
      rule_format, OF h2]
  note t3 = NewCache_misconfiguration [of ?zero listBuilders newWorld, THEN conjunct2, THEN conjunct1,
      rule_format, OF h3]
  note t4 = NewCache_misconfiguration [of ?arc listBuilders newWorld, THEN conjunct2, THEN conjunct2,
      THEN conjunct1, rule_format, OF h4]
  show ?thesis
    unfolding t1 t2 t3 t4
    by (simp add: MonitorNewCache_def newWorld_def minimumSizeForLRUCache_def)
qed

section \<open>Reading and writing through the unit\<close>


lemma Get_hit_panics:
  assumes "cacherGet C (cacher u) key = ((v, True), c1)" and "assertBytes v = None"
  shows "Get C P u key = (Panics, \<lparr>cacher = c1, persister = persister u\<rparr>)"
  using assms by (simp add: Get_def returnBytes_def)



lemma Get_miss_not_bytes:
  assumes "cacherGet C (cacher u) key = ((v, False), c1)"
    and "persisterGet P (persister u) key = ((a, None), p1)"
    and "assertBytes a = None"
  shows "Get C P u key = (Returns (Inl (Errorf_key key)), \<lparr>cacher = c1, persister = p1\<rparr>)"
  using assms by (simp add: Get_def)


text \<open>
  C1. \<^verbatim>\<open>Put\<close> returns what the persister's \<^verbatim>\<open>Put\<close> returns, so it reports success only when
  the durable write succeeded. When the persister's \<^verbatim>\<open>Put\<close> returns an error, the cacher of
  the unit is the one from which the key just put was removed again; and where the
  cacher's \<^verbatim>\<open>Remove\<close> deletes the entry, the lookup of a following \<^verbatim>\<open>Get\<close> of that key misses,
  so that any value this \<^verbatim>\<open>Get\<close> returns is the one the persister's \<^verbatim>\<open>Get\<close> produced.
\<close>

theorem Put_rolls_back:
  "fst (Put C P u k v) = fst (persisterPut P (persister u) k v) \<and>
   persister (snd (Put C P u k v)) = snd (persisterPut P (persister u) k v) \<and>
   (fst (persisterPut P (persister u) k v) \<noteq> None \<longrightarrow>
      cacher (snd (Put C P u k v)) =
        cacherRemove C (cacherPut C (cacher u) k (AnyBytes v) (int (length v))) k \<and>
      (deletes C (cacherPut C (cacher u) k (AnyBytes v) (int (length v))) k \<longrightarrow>
         \<not> snd (fst (cacherGet C (cacher (snd (Put C P u k v))) k)) \<and>
         (\<forall>b. fst (Get C P (snd (Put C P u k v)) k) = Returns (Inr b) \<longrightarrow>
              fst (persisterGet P (persister (snd (Put C P u k v))) k) = (AnyBytes b, None))))"
proof -
  obtain err p1 where pp: "persisterPut P (persister u) k v = (err, p1)"
    by (cases "persisterPut P (persister u) k v")
  let ?c1 = "cacherPut C (cacher u) k (AnyBytes v) (int (length v))"
  have ok: "Put C P u k v = (None, \<lparr>cacher = ?c1, persister = p1\<rparr>)" if "err = None"
    using that pp by (simp add: Put_def)
  have ko: "Put C P u k v = (err, \<lparr>cacher = cacherRemove C ?c1 k, persister = p1\<rparr>)"
    if "err \<noteq> None"
    using that pp by (simp add: Put_def)
  have miss: "fst (persisterGet P p1 k) = (AnyBytes b, None)"
    if d: "deletes C ?c1 k"
      and g: "fst (Get C P \<lparr>cacher = cacherRemove C ?c1 k, persister = p1\<rparr> k) = Returns (Inr b)"
    for b
  proof -
    obtain x c2 where cg: "cacherGet C (cacherRemove C ?c1 k) k = ((x, False), c2)"
      using d by (cases "cacherGet C (cacherRemove C ?c1 k) k") (auto simp: deletes_def)
    obtain a e p2 where pg: "persisterGet P p1 k = ((a, e), p2)"
      by (cases "persisterGet P p1 k") auto
    from g cg pg show ?thesis
      by (cases a; cases e) (simp_all add: Get_def returnBytes_def)
  qed
  show ?thesis
  proof (cases err)
    case None
    with ok pp show ?thesis by simp
  next
    case (Some e)
    then have "err \<noteq> None" by simp
    from ko [OF this] pp Some miss show ?thesis
      by (simp add: deletes_def)
  qed
qed

text \<open>
  A persister that holds the bytes 9 under the key and refuses writes: the \<^verbatim>\<open>Put\<close> of the
  bytes 2, 3 fails, the cacher is empty again, and the following \<^verbatim>\<open>Get\<close> returns 9 from the
  persister.
\<close>

theorem Put_rolls_back_witness:
  "fst (persisterPut listPersister \<lparr>entries = [([1], AnyBytes [9])], writeError = Some (ForeignError 7)\<rparr>
          [1] [2, 3]) \<noteq> None \<and>
   deletes listCacher (cacherPut listCacher [] [1] (AnyBytes [2, 3]) 2) [1] \<and>
   Put listCacher listPersister
       \<lparr>cacher = [], persister = \<lparr>entries = [([1], AnyBytes [9])], writeError = Some (ForeignError 7)\<rparr>\<rparr>
       [1] [2, 3]
     = (Some (ForeignError 7),
        \<lparr>cacher = [], persister = \<lparr>entries = [([1], AnyBytes [9])], writeError = Some (ForeignError 7)\<rparr>\<rparr>) \<and>
   \<not> snd (fst (cacherGet listCacher [] [1])) \<and>
   fst (Get listCacher listPersister
       \<lparr>cacher = [], persister = \<lparr>entries = [([1], AnyBytes [9])], writeError = Some (ForeignError 7)\<rparr>\<rparr>
       [1]) = Returns (Inr [9]) \<and>
   fst (persisterGet listPersister \<lparr>entries = [([1], AnyBytes [9])], writeError = Some (ForeignError 7)\<rparr> [1])
     = (AnyBytes [9], None)"
proof -
  let ?p = "\<lparr>entries = [([1], AnyBytes [9])], writeError = Some (ForeignError 7)\<rparr>"
  let ?u = "\<lparr>cacher = [], persister = ?p\<rparr> :: ((bytes \<times> any) list, listDB) Unit"
  have put: "Put listCacher listPersister ?u [1] [2, 3] = (Some (ForeignError 7), ?u)"
    by (simp add: Put_def listCacher_def listPersister_def)
  have h1: "fst (persisterPut listPersister (persister ?u) [1] [2, 3]) \<noteq> None"
    by (simp add: listPersister_def)
  have h2: "deletes listCacher (cacherPut listCacher (cacher ?u) [1] (AnyBytes [2, 3]) (int (length [2, 3 :: 8 word]))) [1]"
    by (simp add: deletes_def listCacher_def)
  have g: "fst (Get listCacher listPersister ?u [1]) = Returns (Inr [9])"
    by (simp add: Get_def returnBytes_def listCacher_def listPersister_def)
  note t = Put_rolls_back [of listCacher listPersister ?u "[1]" "[2, 3]", THEN conjunct2, THEN conjunct2,
      rule_format, OF h1, THEN conjunct2, rule_format, OF h2]
  have m: "\<not> snd (fst (cacherGet listCacher [] [1]))"
    using t [THEN conjunct1] by (simp add: put)
  have r: "fst (persisterGet listPersister ?p [1]) = (AnyBytes [9], None)"
    using t [THEN conjunct2, rule_format, of "[9]"] g by (simp add: put)
  from h1 h2 put m g r show ?thesis
    by simp
qed




text \<open>
  C9. On a miss, when the persister's \<^verbatim>\<open>Get\<close> returns without error a value that is not a
  byte slice, \<^verbatim>\<open>Get\<close> returns (it does not panic) the error built from the key, with a nil
  value, and the cacher is as the lookup left it: nothing was put into it.
\<close>

theorem Get_not_a_byte_slice:
  assumes "cacherGet C (cacher u) k = ((v, False), c1)"
    and "persisterGet P (persister u) k = ((a, None), p1)"
    and "assertBytes a = None"
  shows "Get C P u k = (Returns (Inl (Errorf_key k)), \<lparr>cacher = c1, persister = p1\<rparr>)"
  using assms by (rule Get_miss_not_bytes)

text \<open>A persister that holds a string under the key.\<close>

theorem Get_not_a_byte_slice_witness:
  "cacherGet listCacher [] [1] = ((AnyNil, False), []) \<and>
   persisterGet listPersister \<lparr>entries = [([1], AnyOther ''text'')], writeError = None\<rparr> [1]
     = ((AnyOther ''text'', None), \<lparr>entries = [([1], AnyOther ''text'')], writeError = None\<rparr>) \<and>
   assertBytes (AnyOther ''text'') = None \<and>
   Get listCacher listPersister
       \<lparr>cacher = [], persister = \<lparr>entries = [([1], AnyOther ''text'')], writeError = None\<rparr>\<rparr> [1]
     = (Returns (Inl (Errorf_key [1])),
        \<lparr>cacher = [], persister = \<lparr>entries = [([1], AnyOther ''text'')], writeError = None\<rparr>\<rparr>)"
proof -
  let ?p = "\<lparr>entries = [([1], AnyOther ''text'')], writeError = None\<rparr>"
  let ?u = "\<lparr>cacher = [], persister = ?p\<rparr> :: ((bytes \<times> any) list, listDB) Unit"
  have h1: "cacherGet listCacher (cacher ?u) [1] = ((AnyNil, False), [])"
    by (simp add: listCacher_def)
  have h2: "persisterGet listPersister (persister ?u) [1] = ((AnyOther ''text'', None), ?p)"
    by (simp add: listPersister_def)
  have h3: "assertBytes (AnyOther ''text'') = None"
    by simp
  from Get_not_a_byte_slice [OF h1 h2 h3] h1 h2 h3 show ?thesis
    by simp
qed

text \<open>
  C8. \<^verbatim>\<open>PutInEpoch\<close>, \<^verbatim>\<open>GetFromEpoch\<close>, \<^verbatim>\<open>SearchFirst\<close> and \<^verbatim>\<open>RemoveFromCurrentEpoch\<close> give, for
  every epoch, the result and the unit that \<^verbatim>\<open>Put\<close>, \<^verbatim>\<open>Get\<close>, \<^verbatim>\<open>Get\<close> and \<^verbatim>\<open>Remove\<close> give, and
  \<^verbatim>\<open>GetOldestEpoch\<close> returns 0 with \<^verbatim>\<open>ErrOldestEpochNotAvailable\<close>.
\<close>

theorem epoch_variants_pass_through:
  "PutInEpoch C P u k d e = Put C P u k d \<and>
   GetFromEpoch C P u k e = Get C P u k \<and>
   SearchFirst C P u k = Get C P u k \<and>
   RemoveFromCurrentEpoch C P u k = Remove C P u k \<and>
   GetOldestEpoch u = (0, Some ErrOldestEpochNotAvailable)"
  by (simp add: PutInEpoch_def GetFromEpoch_def SearchFirst_def RemoveFromCurrentEpoch_def
      GetOldestEpoch_def)

text \<open>
  The loop of \<^verbatim>\<open>GetBulkFromEpoch\<close>, from any accumulator: when no \<^verbatim>\<open>Get\<close> panics it appends
  the pairs of the successful calls; when one does, the loop panics.
\<close>

lemma GetBulkLoop_collects:
  assumes "Panics \<notin> set (getsOf C P u keys)"
  shows "GetBulkLoop C P keys results u =
           (Returns (results @ List.map_filter succeeded (zip keys (getsOf C P u keys)), None),
            unitAfterGets C P u keys)"
  using assms
proof (induction keys arbitrary: results u)
  case Nil
  then show ?case by (simp add: List.map_filter_simps)
next
  case (Cons key keys)
  obtain r u1 where g: "Get C P u key = (r, u1)"
    by (cases "Get C P u key")
  from Cons.prems g have np: "r \<noteq> Panics" and rest: "Panics \<notin> set (getsOf C P u1 keys)"
    by auto
  from np obtain x where x: "r = Returns x"
    by (cases r) auto
  show ?case
  proof (cases x)
    case (Inl err)
    with g x Cons.IH [OF rest] show ?thesis
      by (simp add: List.map_filter_simps)
  next
    case (Inr val)
    with g x Cons.IH [OF rest] show ?thesis
      by (simp add: List.map_filter_simps)
  qed
qed

lemma GetBulkLoop_panics:
  assumes "Panics \<in> set (getsOf C P u keys)"
  shows "fst (GetBulkLoop C P keys results u) = Panics"
  using assms
proof (induction keys arbitrary: results u)
  case Nil
  then show ?case by simp
next
  case (Cons key keys)
  obtain r u1 where g: "Get C P u key = (r, u1)"
    by (cases "Get C P u key")
  show ?case
  proof (cases r)
    case Panics
    with g show ?thesis by simp
  next
    case (Returns x)
    with Cons.prems g have "Panics \<in> set (getsOf C P u1 keys)"
      by simp
    from Cons.IH [OF this] g Returns show ?thesis
      by (cases x) simp_all
  qed
qed

text \<open>
  When none of the \<^verbatim>\<open>Get\<close> calls panics, \<^verbatim>\<open>GetBulkFromEpoch\<close> returns a nil error, and its
  result has, in the order of the keys, one pair for each key whose \<^verbatim>\<open>Get\<close> succeeded and
  none for a key whose \<^verbatim>\<open>Get\<close> returned an error.
\<close>

lemma GetBulkFromEpoch_collects:
  assumes "Panics \<notin> set (getsOf C P u keys)"
  shows "GetBulkFromEpoch C P u keys epoch =
           (Returns (List.map_filter succeeded (zip keys (getsOf C P u keys)), None),
            unitAfterGets C P u keys)"
  using GetBulkLoop_collects [OF assms, of "[]"] by (simp add: GetBulkFromEpoch_def)

text \<open>
  The unit keeps its cacher to byte slices: from a cacher state with the property \<open>I\<close> of
  \<open>holdsBytes\<close>, \<^verbatim>\<open>Get\<close> does not panic, and \<^verbatim>\<open>Get\<close>, \<^verbatim>\<open>Put\<close>, \<^verbatim>\<open>Remove\<close>, \<^verbatim>\<open>Has\<close> and \<^verbatim>\<open>ClearCache\<close>
  leave a cacher state with \<open>I\<close>, whatever the persister does.
\<close>

lemma Get_keeps_bytes:
  assumes "holdsBytes C I" and "I (cacher u)"
  shows "fst (Get C P u key) \<noteq> Panics \<and> I (cacher (snd (Get C P u key)))"
proof -
  obtain v ok c1 where cg: "cacherGet C (cacher u) key = ((v, ok), c1)"
    by (cases "cacherGet C (cacher u) key") auto
  from assms cg have c1: "I c1"
    unfolding holdsBytes_def by (metis snd_conv)
  show ?thesis
  proof (cases ok)
    case True
    from assms cg True have "assertBytes v \<noteq> None"
      unfolding holdsBytes_def by (metis fst_conv snd_conv)
    then obtain b where "v = AnyBytes b"
      by (cases v) auto
    with cg True c1 show ?thesis
      by (simp add: Get_def returnBytes_def)
  next
    case False
    obtain a err p1 where pg: "persisterGet P (persister u) key = ((a, err), p1)"
      by (cases "persisterGet P (persister u) key") auto
    have put: "I (cacherPut C c1 key (AnyBytes b) n)" for b n
      using assms(1) c1 unfolding holdsBytes_def by blast
    from cg False pg c1 put show ?thesis
      by (cases err; cases a) (simp_all add: Get_def returnBytes_def)
  qed
qed

lemma Put_keeps_bytes:
  assumes "holdsBytes C I" and "I (cacher u)"
  shows "I (cacher (snd (Put C P u key data)))"
proof -
  have p: "I (cacherPut C (cacher u) key (AnyBytes data) (int (length data)))"
    using assms unfolding holdsBytes_def by blast
  then have r: "I (cacherRemove C (cacherPut C (cacher u) key (AnyBytes data) (int (length data))) key)"
    using assms(1) unfolding holdsBytes_def by blast
  from p r show ?thesis
    by (cases "persisterPut P (persister u) key data") (simp add: Put_def Let_def)
qed

lemma Remove_keeps_bytes:
  assumes "holdsBytes C I" and "I (cacher u)"
  shows "I (cacher (snd (Remove C P u key)))"
proof -
  have "I (cacherRemove C (cacher u) key)"
    using assms unfolding holdsBytes_def by blast
  then show ?thesis
    by (cases "persisterRemove P (persister u) key") (simp add: Remove_def Let_def)
qed

lemma Has_keeps_bytes:
  assumes "holdsBytes C I" and "I (cacher u)"
  shows "I (cacher (snd (Has C P u key)))"
proof -
  obtain has c1 where h: "cacherHas C (cacher u) key = (has, c1)"
    by (cases "cacherHas C (cacher u) key")
  with assms have "I c1"
    unfolding holdsBytes_def by (metis snd_conv)
  with h show ?thesis
    by (cases "persisterHas P (persister u) key") (simp add: Has_def)
qed

lemma ClearCache_keeps_bytes:
  assumes "holdsBytes C I" and "I (cacher u)"
  shows "I (cacher (ClearCache C u))"
  using assms unfolding holdsBytes_def by (simp add: ClearCache_def)

text \<open>So no \<^verbatim>\<open>Get\<close> of a run of calls panics.\<close>

lemma getsOf_keeps_bytes:
  assumes "holdsBytes C I" and "I (cacher u)"
  shows "Panics \<notin> set (getsOf C P u keys) \<and> I (cacher (unitAfterGets C P u keys))"
  using assms(2)
proof (induction keys arbitrary: u)
  case Nil
  then show ?case by simp
next
  case (Cons key keys)
  from Get_keeps_bytes [OF assms(1) Cons.prems, of P key]
  have g: "fst (Get C P u key) \<noteq> Panics" and i: "I (cacher (snd (Get C P u key)))"
    by simp_all
  from Cons.IH [OF i] g show ?case
    by auto
qed

text \<open>The list cacher holds byte slices as long as byte slices are put.\<close>

lemma listCacher_holdsBytes: "holdsBytes listCacher bytesOnly"
proof -
  have m: "assertBytes v \<noteq> None" if "bytesOnly c" and "map_of c key = Some v" for c key v
  proof -
    from that(2) have "(key, v) \<in> set c"
      by (rule map_of_SomeD)
    with that(1) show ?thesis
      by (auto simp: bytesOnly_def list_all_iff)
  qed
  show ?thesis
    unfolding holdsBytes_def
  proof (intro conjI allI impI)
    fix c key
    assume "bytesOnly c" and "snd (fst (cacherGet listCacher c key))"
    then show "assertBytes (fst (fst (cacherGet listCacher c key))) \<noteq> None"
      using m [of c key] by (cases "map_of c key") (simp_all add: listCacher_def)
  qed (auto simp: listCacher_def bytesOnly_def list_all_iff split: option.splits)
qed

text \<open>
  C10. For every list of keys, on a unit whose cacher holds nothing but byte slices,
  \<^verbatim>\<open>GetBulkFromEpoch\<close> returns (no \<^verbatim>\<open>Get\<close> panics) and its error is nil; its result has, in
  the order of the keys, one pair for each key whose \<^verbatim>\<open>Get\<close> succeeded and none for a key
  whose \<^verbatim>\<open>Get\<close> returned an error; and the cacher still holds nothing but byte slices.
\<close>

theorem GetBulkFromEpoch_skips_errors:
  assumes "holdsBytes C I" and "I (cacher u)"
  shows "GetBulkFromEpoch C P u keys epoch =
           (Returns (List.map_filter succeeded (zip keys (getsOf C P u keys)), None),
            unitAfterGets C P u keys) \<and>
         Panics \<notin> set (getsOf C P u keys) \<and>
         I (cacher (unitAfterGets C P u keys))"
proof -
  note k = getsOf_keeps_bytes [OF assms, of P keys]
  from GetBulkFromEpoch_collects [OF k [THEN conjunct1], of epoch] k show ?thesis
    by simp
qed

text \<open>
  The key 1 is in the persister and the key 2 is not: of the keys 1, 2, 1 the result has
  the two pairs of the key 1.
\<close>

theorem GetBulkFromEpoch_skips_errors_witness:
  "holdsBytes listCacher bytesOnly \<and>
   bytesOnly [] \<and>
   getsOf listCacher listPersister
      \<lparr>cacher = [], persister = \<lparr>entries = [([1], AnyBytes [7])], writeError = None\<rparr>\<rparr>
      [[1], [2], [1]]
     = [Returns (Inr [7]), Returns (Inl (ForeignError 0)), Returns (Inr [7])] \<and>
   fst (GetBulkFromEpoch listCacher listPersister
      \<lparr>cacher = [], persister = \<lparr>entries = [([1], AnyBytes [7])], writeError = None\<rparr>\<rparr>
      [[1], [2], [1]] 0)
     = Returns ([\<lparr>Key = [1], Value = [7]\<rparr>, \<lparr>Key = [1], Value = [7]\<rparr>], None)"
proof -
  let ?u = "\<lparr>cacher = [], persister = \<lparr>entries = [([1], AnyBytes [7])], writeError = None\<rparr>\<rparr>
              :: ((bytes \<times> any) list, listDB) Unit"
  have i: "bytesOnly (cacher ?u)"
    by (simp add: bytesOnly_def)
  have g: "getsOf listCacher listPersister ?u [[1], [2], [1]]
             = [Returns (Inr [7]), Returns (Inl (ForeignError 0)), Returns (Inr [7])]"
    by (simp add: Get_def returnBytes_def listCacher_def listPersister_def)
  note t = GetBulkFromEpoch_skips_errors [OF listCacher_holdsBytes i,
      of listPersister "[[1], [2], [1]]" 0, THEN conjunct1]
  have r: "fst (GetBulkFromEpoch listCacher listPersister ?u [[1], [2], [1]] 0)
     = Returns ([\<lparr>Key = [1], Value = [7]\<rparr>, \<lparr>Key = [1], Value = [7]\<rparr>], None)"
    unfolding t g by (simp add: List.map_filter_simps)
  have e: "bytesOnly []"
    by (simp add: bytesOnly_def)
  from listCacher_holdsBytes e g r show ?thesis
    by (simp only: simp_thms)
qed

end
